theory Spec2Isabelle
  imports Complex_Main "HOL-Library.AList"
begin

section \<open>Data model\<close>

text \<open>
  The program is \<^verbatim>\<open>temperature_ds18s20_stanley_driver/__main__.py\<close>. Text is modelled
  as \<^typ>\<open>string\<close>; the character classes of the two patterns are the ASCII ones, which is
  the alphabet the one-wire driver writes. A Python float is either a finite value,
  represented by the exact quotient it approximates (binary rounding and overflow are not
  part of the model), or the not-a-number sentinel.
\<close>

datatype pyfloat = Finite real | NaN

datatype exn =
    OSError
  | ValueError
  | RuntimeError string
  | KeyError string
  | SystemExit nat
  | PostError

datatype level = DEBUG | INFO | WARN

fun level_no :: "level \<Rightarrow> nat" where
  "level_no DEBUG = 10"
| "level_no INFO = 20"
| "level_no WARN = 30"

text \<open>A timestamp is an instant together with the zone it was taken in.\<close>

type_synonym timestamp = "int \<times> string"

text \<open>\<^verbatim>\<open>pd.Series(values, index=...)\<close>: the index entries paired with the values.\<close>

type_synonym series = "(timestamp \<times> pyfloat) list"

text \<open>A Python dict keeps insertion order and one entry per key: an association list
  maintained with \<^const>\<open>AList.update\<close>.\<close>

type_synonym 'v pydict = "(string \<times> 'v) list"

datatype logarg = AStr string | AFloat pyfloat | ASeries series

text \<open>The archive client \<^verbatim>\<open>StanleyAiohttpInterface\<close> belongs to the library \<^verbatim>\<open>pystanley\<close>;
  the model keeps what the program gives it and records its construction and the call of
  \<^verbatim>\<open>post_readings\<close> as actions on the outside world.\<close>

record client =
  st_url :: string
  st_ca_cert :: "string option"
  st_username :: string
  st_password :: string

datatype event =
    GetEnv string
  | DelEnv string
  | NewClient client
  | GetLocalzone
  | Opened string
  | Now
  | Posted client "series pydict"

text \<open>What \<^verbatim>\<open>argparse\<close> found on the command line: whether \<^verbatim>\<open>-h\<close> was given, the number
  of \<^verbatim>\<open>-v\<close> flags and, for every other option, its value when the option was given.\<close>

record cmdline =
  cl_help :: bool
  cl_verbose :: nat
  cl_url :: "string option"
  cl_username :: "string option"
  cl_ca_cert :: "string option"
  cl_sensor :: "string list option"

record arguments =
  verbose :: "int option"
  url :: string
  username :: string
  ca_cert :: "string option"
  sensor :: "string list"

text \<open>
  The process and what it can observe. \<open>wall_clock k\<close> is the instant returned by the
  \<open>k\<close>-th reading of the clock, \<open>archiver_accepts\<close> tells whether the archive service
  takes a submission. \<open>trace\<close> lists the actions on the outside world in the order they
  happen, each with the process environment in force when it happened; \<open>log_out\<close> holds the
  records that passed the logging level.
\<close>

record world =
  cmdline :: cmdline
  environ :: "string \<rightharpoonup> string"
  sysfs :: "string \<rightharpoonup> string"
  localzone :: string
  wall_clock :: "nat \<Rightarrow> int"
  ticks :: nat
  archiver_accepts :: "series pydict \<Rightarrow> bool"
  log_level :: nat
  log_out :: "(level \<times> string \<times> logarg list) list"
  trace :: "(event \<times> (string \<rightharpoonup> string)) list"

definition emit :: "event \<Rightarrow> world \<Rightarrow> world" where
  "emit e w = w\<lparr>trace := trace w @ [(e, environ w)]\<rparr>"

definition log :: "level \<Rightarrow> string \<Rightarrow> logarg list \<Rightarrow> world \<Rightarrow> world" where
  "log lvl fmt args w =
     (if log_level w \<le> level_no lvl then w\<lparr>log_out := log_out w @ [(lvl, fmt, args)]\<rparr>
      else w)"

section \<open>The line patterns\<close>

definition newline :: char where
  "newline = CHR 0x0A"

definition is_digit :: "char \<Rightarrow> bool" where
  "is_digit c = (c \<in> set ''0123456789'')"

definition is_word :: "char \<Rightarrow> bool" where
  "is_word c =
     (c \<in> set ''abcdefghijklmnopqrstuvwxyzABCDEFGHIJKLMNOPQRSTUVWXYZ0123456789_'')"

text \<open>A literal of a pattern: the text left when the input starts with it.\<close>

fun strip_prefix :: "string \<Rightarrow> string \<Rightarrow> string option" where
  "strip_prefix [] s = Some s"
| "strip_prefix (p # ps) [] = None"
| "strip_prefix (p # ps) (c # cs) = (if p = c then strip_prefix ps cs else None)"

text \<open>
  A leading \<^verbatim>\<open>.*\<close> followed by the rest \<open>k\<close> of the pattern, as the backtracking matcher
  runs it: the star takes every character it can (any but a newline) and gives them back
  one at a time until the rest of the pattern matches.
\<close>

fun dot_star :: "(string \<Rightarrow> 'a option) \<Rightarrow> string \<Rightarrow> 'a option" where
  "dot_star k [] = k []"
| "dot_star k (c # cs) =
     (if c = newline then k (c # cs)
      else (case dot_star k cs of Some r \<Rightarrow> Some r | None \<Rightarrow> k (c # cs)))"

text \<open>\<^verbatim>\<open>: crc=(\w\w) (?P<valid>YES|NO)\<close> at the current position: the group \<open>valid\<close> and
  the text after the match.\<close>

definition first_line_tail :: "string \<Rightarrow> (string \<times> string) option" where
  "first_line_tail s =
     (case strip_prefix '': crc='' s of
        None \<Rightarrow> None
      | Some r \<Rightarrow>
          (case r of
             a # b # r1 \<Rightarrow>
               if is_word a \<and> is_word b then
                 (case strip_prefix '' '' r1 of
                    None \<Rightarrow> None
                  | Some r2 \<Rightarrow>
                      (case strip_prefix ''YES'' r2 of
                         Some r3 \<Rightarrow> Some (''YES'', r3)
                       | None \<Rightarrow>
                           (case strip_prefix ''NO'' r2 of
                              Some r3 \<Rightarrow> Some (''NO'', r3)
                            | None \<Rightarrow> None)))
               else None
           | _ \<Rightarrow> None))"

text \<open>\<^verbatim>\<open>\d+\<close>, which takes the whole run of digits.\<close>

definition digits_group :: "string \<Rightarrow> (string \<times> string) option" where
  "digits_group r =
     (if takeWhile is_digit r = [] then None
      else Some (takeWhile is_digit r, dropWhile is_digit r))"

text \<open>\<^verbatim>\<open>t=(?P<temperature>-?\d+)\<close> at the current position: the optional sign is tried
  first, and dropped again when no digit follows it.\<close>

definition second_line_tail :: "string \<Rightarrow> (string \<times> string) option" where
  "second_line_tail s =
     (case strip_prefix ''t='' s of
        None \<Rightarrow> None
      | Some r \<Rightarrow>
          (case strip_prefix ''-'' r of
             Some r1 \<Rightarrow>
               (case digits_group r1 of
                  Some (ds, r2) \<Rightarrow> Some (CHR ''-'' # ds, r2)
                | None \<Rightarrow> digits_group r)
           | None \<Rightarrow> digits_group r))"

text \<open>\<^verbatim>\<open>FIRST_LINE_PATTERN.match(line)\<close> and \<^verbatim>\<open>SECOND_LINE_PATTERN.match(line)\<close>: the named
  group and the text after the match, or \<open>None\<close>.\<close>

definition FIRST_LINE_PATTERN :: "string \<Rightarrow> (string \<times> string) option" where
  "FIRST_LINE_PATTERN line = dot_star first_line_tail line"

definition SECOND_LINE_PATTERN :: "string \<Rightarrow> (string \<times> string) option" where
  "SECOND_LINE_PATTERN line = dot_star second_line_tail line"

section \<open>The sensor reader\<close>

text \<open>\<^verbatim>\<open>content.split("\n")\<close>: always at least one piece.\<close>

fun split_nl :: "string \<Rightarrow> string list" where
  "split_nl [] = [[]]"
| "split_nl (c # cs) =
     (if c = newline then [] # split_nl cs
      else (case split_nl cs of l # ls \<Rightarrow> (c # l) # ls | [] \<Rightarrow> [[c]]))"

definition digit_val :: "char \<Rightarrow> nat" where
  "digit_val c = of_char c - 48"

definition nat_of_digits :: "string \<Rightarrow> nat" where
  "nat_of_digits ds = foldl (\<lambda>n c. 10 * n + digit_val c) 0 ds"

text \<open>\<^verbatim>\<open>float(text)\<close> on an optionally signed run of decimal digits, the only texts the
  group \<open>temperature\<close> can hold; on any other text the model raises.\<close>

definition float_py :: "string \<Rightarrow> exn + real" where
  "float_py s =
     (case s of
        [] \<Rightarrow> Inl ValueError
      | c # r \<Rightarrow>
          if c = CHR ''-'' then
            (if r \<noteq> [] \<and> list_all is_digit r then Inr (- real (nat_of_digits r))
             else Inl ValueError)
          else if list_all is_digit s then Inr (real (nat_of_digits s))
          else Inl ValueError)"

definition w1_slave :: "string \<Rightarrow> string" where
  "w1_slave sensor_id = ''/sys/bus/w1/devices/'' @ sensor_id @ ''/w1_slave''"

text \<open>The undecorated body of \<^verbatim>\<open>read_ds18s20_temperature\<close>. A file that cannot be opened
  or read is absent from \<open>sysfs\<close>.\<close>

definition read_ds18s20_temperature_body :: "string \<Rightarrow> world \<Rightarrow> (exn + pyfloat) \<times> world" where
  "read_ds18s20_temperature_body sensor_id w =
     (let filename = w1_slave sensor_id;
          w1 = emit (Opened filename) w
      in case sysfs w1 filename of
           None \<Rightarrow> (Inl OSError, w1)
         | Some content \<Rightarrow>
             (case take 2 (split_nl content) of
                [first_line, second_line] \<Rightarrow>
                  (case FIRST_LINE_PATTERN first_line of
                     None \<Rightarrow> (Inl (RuntimeError ''Output not valid''), w1)
                   | Some (valid, rest1) \<Rightarrow>
                       (case SECOND_LINE_PATTERN second_line of
                          None \<Rightarrow> (Inl (RuntimeError ''Output not valid''), w1)
                        | Some (temperature_text, rest2) \<Rightarrow>
                            if valid = ''YES'' then
                              (case float_py temperature_text of
                                 Inl e \<Rightarrow> (Inl e, w1)
                               | Inr v \<Rightarrow>
                                   (let temperature = Finite (v / 1000)
                                    in (Inr temperature,
                                        log INFO ''Read temperature for sensor %s: %.2f C''
                                          [AStr sensor_id, AFloat temperature] w1)))
                            else (Inl (RuntimeError ''CRC not valid''), w1)))
              | _ \<Rightarrow> (Inl ValueError, w1)))"

text \<open>The decorator: whatever the wrapped function raises becomes \<^verbatim>\<open>float("nan")\<close>.\<close>

definition trap_nan ::
  "('a \<Rightarrow> world \<Rightarrow> (exn + pyfloat) \<times> world) \<Rightarrow> 'a \<Rightarrow> world \<Rightarrow> (exn + pyfloat) \<times> world" where
  "trap_nan f x w =
     (case f x w of
        (Inl e, w') \<Rightarrow> (Inr NaN, w')
      | (Inr v, w') \<Rightarrow> (Inr v, w'))"

definition read_ds18s20_temperature :: "string \<Rightarrow> world \<Rightarrow> (exn + pyfloat) \<times> world" where
  "read_ds18s20_temperature = trap_nan read_ds18s20_temperature_body"


section \<open>The run orchestrator\<close>

text \<open>\<^verbatim>\<open>parse_arguments\<close>: \<^verbatim>\<open>--url\<close> and \<^verbatim>\<open>--username\<close> are required, \<^verbatim>\<open>--sensor\<close> takes
  one or more values and defaults to the empty list, \<^verbatim>\<open>-v\<close> is counted and has no
  default. A command line that breaks these rules ends the process with status 2, and
  \<^verbatim>\<open>-h\<close> ends it with status 0 after printing the help.\<close>

definition parse_arguments :: "world \<Rightarrow> exn + arguments" where
  "parse_arguments w =
     (let c = cmdline w
      in if cl_help c then Inl (SystemExit 0)
         else case cl_url c of
           None \<Rightarrow> Inl (SystemExit 2)
         | Some u \<Rightarrow>
             (case cl_username c of
                None \<Rightarrow> Inl (SystemExit 2)
              | Some n \<Rightarrow>
                  (case cl_sensor c of
                     Some [] \<Rightarrow> Inl (SystemExit 2)
                   | given \<Rightarrow>
                       Inr \<lparr>verbose = (if cl_verbose c = 0 then None else Some (int (cl_verbose c))),
                            url = u,
                            username = n,
                            ca_cert = cl_ca_cert c,
                            sensor = (case given of None \<Rightarrow> [] | Some ids \<Rightarrow> ids)\<rparr>)))"

definition setup_logging :: "int option \<Rightarrow> world \<Rightarrow> world" where
  "setup_logging verbosity w =
     (let level =
        (case verbosity of
           None \<Rightarrow> WARN
         | Some v \<Rightarrow> if v \<le> 0 then WARN else if v = 1 then INFO else DEBUG)
      in w\<lparr>log_level := level_no level\<rparr>)"

definition STANLEY_PASSWORD :: string where
  "STANLEY_PASSWORD = ''STANLEY_PASSWORD''"

text \<open>\<^verbatim>\<open>os.environ[key]\<close> and \<^verbatim>\<open>del os.environ[key]\<close>.\<close>

definition environ_get :: "string \<Rightarrow> world \<Rightarrow> (exn + string) \<times> world" where
  "environ_get key w =
     (case environ w key of
        None \<Rightarrow> (Inl (KeyError key), emit (GetEnv key) w)
      | Some v \<Rightarrow> (Inr v, emit (GetEnv key) w))"

definition environ_del :: "string \<Rightarrow> world \<Rightarrow> (exn + unit) \<times> world" where
  "environ_del key w =
     (case environ w key of
        None \<Rightarrow> (Inl (KeyError key), w)
      | Some v \<Rightarrow> (Inr (), emit (DelEnv key) (w\<lparr>environ := (environ w)(key := None)\<rparr>)))"

definition StanleyAiohttpInterface ::
  "string \<Rightarrow> string option \<Rightarrow> string \<Rightarrow> string \<Rightarrow> world \<Rightarrow> client \<times> world" where
  "StanleyAiohttpInterface u ca n p w =
     (let stanley = \<lparr>st_url = u, st_ca_cert = ca, st_username = n, st_password = p\<rparr>
      in (stanley, emit (NewClient stanley) w))"

definition get_localzone :: "world \<Rightarrow> string \<times> world" where
  "get_localzone w = (localzone w, emit GetLocalzone w)"

text \<open>\<^verbatim>\<open>datetime.now(timezone)\<close>.\<close>

definition now :: "string \<Rightarrow> world \<Rightarrow> timestamp \<times> world" where
  "now timezone w = ((wall_clock w (ticks w), timezone), emit Now (w\<lparr>ticks := Suc (ticks w)\<rparr>))"

text \<open>
  The comprehension that builds \<^verbatim>\<open>all_time_series\<close>, one sensor after the other: the
  reader is called, then the clock is read, and the one-point series is stored under the
  sensor's identifier in the dict \<open>d\<close> built so far.
\<close>

fun collect_time_series ::
  "string \<Rightarrow> string list \<Rightarrow> series pydict \<Rightarrow> world \<Rightarrow> (exn + series pydict) \<times> world" where
  "collect_time_series timezone [] d w = (Inr d, w)"
| "collect_time_series timezone (sensor_id # rest) d w =
     (case read_ds18s20_temperature sensor_id w of
        (Inl e, w1) \<Rightarrow> (Inl e, w1)
      | (Inr v, w1) \<Rightarrow>
          (case now timezone w1 of
             (t, w2) \<Rightarrow>
               collect_time_series timezone rest (AList.update sensor_id [(t, v)] d) w2))"

definition all_time_series ::
  "string \<Rightarrow> string list \<Rightarrow> world \<Rightarrow> (exn + series pydict) \<times> world" where
  "all_time_series timezone sensors w = collect_time_series timezone sensors [] w"

text \<open>The loop that logs every entry of \<^verbatim>\<open>all_time_series\<close>.\<close>

fun log_time_series :: "series pydict \<Rightarrow> world \<Rightarrow> world" where
  "log_time_series [] w = w"
| "log_time_series ((sensor_id, time_series) # rest) w =
     log_time_series rest (log INFO ''Sensor %s: %.2f'' [AStr sensor_id, ASeries time_series] w)"

definition series_name :: "string \<Rightarrow> string" where
  "series_name sensor_id = ''/sensors/temperature/'' @ sensor_id"

text \<open>The comprehension that builds \<^verbatim>\<open>readings\<close> from the items of \<^verbatim>\<open>all_time_series\<close>.\<close>

definition make_readings :: "series pydict \<Rightarrow> series pydict" where
  "make_readings items =
     foldl (\<lambda>d (sensor_id, time_series). AList.update (series_name sensor_id) time_series d)
       [] items"

text \<open>\<^verbatim>\<open>await stanley.post_readings(readings)\<close>: the submission, which the service takes
  or which fails with an error of the library's.\<close>

definition post_readings :: "client \<Rightarrow> series pydict \<Rightarrow> world \<Rightarrow> (exn + unit) \<times> world" where
  "post_readings stanley readings w =
     (let w1 = emit (Posted stanley readings) w
      in if archiver_accepts w1 readings then (Inr (), w1) else (Inl PostError, w1))"

definition async_main :: "world \<Rightarrow> (exn + unit) \<times> world" where
  "async_main w0 =
     (case parse_arguments w0 of
        Inl e \<Rightarrow> (Inl e, w0)
      | Inr arguments \<Rightarrow>
          (let w1 = setup_logging (verbose arguments) w0
           in case environ_get STANLEY_PASSWORD w1 of
                (Inl e, w2) \<Rightarrow> (Inl e, w2)
              | (Inr password, w2) \<Rightarrow>
                  (let w3 = log DEBUG ''Removing password from environment'' [] w2
                   in case environ_del STANLEY_PASSWORD w3 of
                        (Inl e, w4) \<Rightarrow> (Inl e, w4)
                      | (Inr u, w4) \<Rightarrow>
                          (let w5 = log DEBUG ''Using Stanley server %s'' [AStr (url arguments)] w4
                           in case StanleyAiohttpInterface (url arguments) (ca_cert arguments)
                                     (username arguments) password w5 of
                                (stanley, w6) \<Rightarrow>
                                  (case get_localzone w6 of
                                     (timezone, w7) \<Rightarrow>
                                       (case all_time_series timezone (sensor arguments) w7 of
                                          (Inl e, w8) \<Rightarrow> (Inl e, w8)
                                        | (Inr items, w8) \<Rightarrow>
                                            (let w9 = log_time_series items w8;
                                                 readings = make_readings items;
                                                 w10 = log INFO ''Sending values to Stanley server...'' [] w9
                                             in case post_readings stanley readings w10 of
                                                  (Inl e, w11) \<Rightarrow> (Inl e, w11)
                                                | (Inr u', w11) \<Rightarrow>
                                                    (Inr (), log INFO ''All done'' [] w11))))))))"


text \<open>The actions that build the archive client or use the network.\<close>

fun is_network :: "event \<Rightarrow> bool" where
  "is_network (NewClient c) = True"
| "is_network (Posted c readings) = True"
| "is_network e = False"

text \<open>The actions of a run: what the trace of the final world adds to that of the first.\<close>

definition actions :: "world \<Rightarrow> world \<Rightarrow> (event \<times> (string \<rightharpoonup> string)) list" where
  "actions w w' = drop (length (trace w)) (trace w')"

section \<open>Notions used to state the properties\<close>


text \<open>The payloads handed to \<^verbatim>\<open>post_readings\<close>, in order.\<close>

fun posted_readings :: "(event \<times> (string \<rightharpoonup> string)) list \<Rightarrow> series pydict list" where
  "posted_readings [] = []"
| "posted_readings ((Posted c readings, env) # es) = readings # posted_readings es"
| "posted_readings (e # es) = posted_readings es"

text \<open>A series with exactly one data point.\<close>

definition one_point :: "string \<times> series \<Rightarrow> bool" where
  "one_point item = (length (snd item) = 1)"

text \<open>The value the reader returns for a sensor in a given world.\<close>

definition reading :: "world \<Rightarrow> string \<Rightarrow> pyfloat" where
  "reading w sensor_id =
     (case fst (read_ds18s20_temperature sensor_id w) of Inr v \<Rightarrow> v | Inl e \<Rightarrow> NaN)"




text \<open>The dict the comprehension builds from \<open>d\<close>, written without the world.\<close>

fun expected_series ::
  "string \<Rightarrow> (nat \<Rightarrow> int) \<Rightarrow> (string \<Rightarrow> pyfloat) \<Rightarrow> nat \<Rightarrow> string list \<Rightarrow> series pydict
     \<Rightarrow> series pydict" where
  "expected_series timezone clock val n [] d = d"
| "expected_series timezone clock val n (sensor_id # rest) d =
     expected_series timezone clock val (Suc n) rest
       (AList.update sensor_id [((clock n, timezone), val sensor_id)] d)"


section \<open>A sample run\<close>

text \<open>A process with three sensor files: a valid report, a report whose checksum failed,
  and a report with text after the matched parts of both lines.\<close>

definition sample_world :: world where
  "sample_world =
     \<lparr>cmdline = \<lparr>cl_help = False, cl_verbose = 0, cl_url = Some ''https://archive.example/'',
                  cl_username = Some ''pi'', cl_ca_cert = None,
                  cl_sensor = Some [''28-000001'', ''28-000002'']\<rparr>,
      environ = [''STANLEY_PASSWORD'' \<mapsto> ''secret''],
      sysfs = [w1_slave ''28-000001'' \<mapsto>
                 ''72 01 4b 46 7f ff 0e 10 57 : crc=57 YES'' @ [newline] @
                 ''72 01 4b 46 7f ff 0e 10 57 t=21562'' @ [newline],
               w1_slave ''28-000002'' \<mapsto>
                 ''ff ff ff ff ff ff ff ff ff : crc=c9 NO'' @ [newline] @
                 ''ff ff ff ff ff ff ff ff ff t=-62'' @ [newline],
               w1_slave ''28-000003'' \<mapsto>
                 ''50 05 4b 46 7f ff 0c 10 1c : crc=1c YES (ok)'' @ [newline] @
                 ''50 05 4b 46 7f ff 0c 10 1c t=12a34'' @ [newline]],
      localzone = ''Europe/Copenhagen'',
      wall_clock = (\<lambda>k. 1572870000 + 2 * int k),
      ticks = 0,
      archiver_accepts = (\<lambda>readings. True),
      log_level = 30,
      log_out = [],
      trace = []\<rparr>"

text \<open>The same process started without \<^verbatim>\<open>--sensor\<close>, and started without the password in
  its environment.\<close>

definition no_sensor_world :: world where
  "no_sensor_world = sample_world\<lparr>cmdline := (cmdline sample_world)\<lparr>cl_sensor := None\<rparr>\<rparr>"


section \<open>Properties of the line patterns\<close>

lemma split_nl_not_Nil: "split_nl s \<noteq> []"
  by (induction s) (auto split: list.splits)















lemma fst_trap_nan:
  "fst (trap_nan f x w) = (case fst (f x w) of Inl e \<Rightarrow> Inr NaN | Inr v \<Rightarrow> Inr v)"
  by (simp add: trap_nan_def split: prod.splits sum.splits)

lemma sysfs_emit [simp]: "sysfs (emit e w) = sysfs w"
  by (simp add: emit_def)

lemmas pattern_eval =
  FIRST_LINE_PATTERN_def SECOND_LINE_PATTERN_def first_line_tail_def second_line_tail_def
  digits_group_def is_digit_def is_word_def newline_def
















section \<open>Properties of the sensor reader\<close>












section \<open>Properties of the primitives of a run\<close>

text \<open>What each step leaves unchanged, and what it adds to the trace.\<close>

lemma emit_frame [simp]:
  "trace (emit e w) = trace w @ [(e, environ w)]"
  "environ (emit e w) = environ w"
  "sysfs (emit e w) = sysfs w"
  "ticks (emit e w) = ticks w"
  "wall_clock (emit e w) = wall_clock w"
  "archiver_accepts (emit e w) = archiver_accepts w"
  "localzone (emit e w) = localzone w"
  by (simp_all add: emit_def)

lemma log_frame [simp]:
  "trace (log l f a w) = trace w"
  "environ (log l f a w) = environ w"
  "sysfs (log l f a w) = sysfs w"
  "ticks (log l f a w) = ticks w"
  "wall_clock (log l f a w) = wall_clock w"
  "archiver_accepts (log l f a w) = archiver_accepts w"
  "localzone (log l f a w) = localzone w"
  by (simp_all add: log_def)

lemma setup_logging_frame [simp]:
  "trace (setup_logging v w) = trace w"
  "environ (setup_logging v w) = environ w"
  "sysfs (setup_logging v w) = sysfs w"
  "ticks (setup_logging v w) = ticks w"
  "wall_clock (setup_logging v w) = wall_clock w"
  "archiver_accepts (setup_logging v w) = archiver_accepts w"
  "localzone (setup_logging v w) = localzone w"
  by (simp_all add: setup_logging_def Let_def)

lemma snd_trap_nan: "snd (trap_nan f x w) = snd (f x w)"
  by (simp add: trap_nan_def split: prod.splits sum.splits)

lemma read_body_frame:
  "trace (snd (read_ds18s20_temperature_body s w)) = trace w @ [(Opened (w1_slave s), environ w)]"
  "environ (snd (read_ds18s20_temperature_body s w)) = environ w"
  "sysfs (snd (read_ds18s20_temperature_body s w)) = sysfs w"
  "ticks (snd (read_ds18s20_temperature_body s w)) = ticks w"
  "wall_clock (snd (read_ds18s20_temperature_body s w)) = wall_clock w"
  "archiver_accepts (snd (read_ds18s20_temperature_body s w)) = archiver_accepts w"
  "localzone (snd (read_ds18s20_temperature_body s w)) = localzone w"
  by (simp_all add: read_ds18s20_temperature_body_def Let_def
      split: option.splits list.splits sum.splits prod.splits)

lemma read_frame [simp]:
  "trace (snd (read_ds18s20_temperature s w)) = trace w @ [(Opened (w1_slave s), environ w)]"
  "environ (snd (read_ds18s20_temperature s w)) = environ w"
  "sysfs (snd (read_ds18s20_temperature s w)) = sysfs w"
  "ticks (snd (read_ds18s20_temperature s w)) = ticks w"
  "wall_clock (snd (read_ds18s20_temperature s w)) = wall_clock w"
  "archiver_accepts (snd (read_ds18s20_temperature s w)) = archiver_accepts w"
  "localzone (snd (read_ds18s20_temperature s w)) = localzone w"
  by (simp_all add: read_ds18s20_temperature_def snd_trap_nan read_body_frame)

lemma read_returns: "fst (read_ds18s20_temperature s w) = Inr (reading w s)"
  by (simp add: reading_def read_ds18s20_temperature_def fst_trap_nan split: sum.splits)

lemma fst_read_body:
  "fst (read_ds18s20_temperature_body s w) =
     (case sysfs w (w1_slave s) of
        None \<Rightarrow> Inl OSError
      | Some content \<Rightarrow>
          (case take 2 (split_nl content) of
             [first_line, second_line] \<Rightarrow>
               (case FIRST_LINE_PATTERN first_line of
                  None \<Rightarrow> Inl (RuntimeError ''Output not valid'')
                | Some (valid, rest1) \<Rightarrow>
                    (case SECOND_LINE_PATTERN second_line of
                       None \<Rightarrow> Inl (RuntimeError ''Output not valid'')
                     | Some (temperature_text, rest2) \<Rightarrow>
                         if valid = ''YES'' then
                           (case float_py temperature_text of
                              Inl e \<Rightarrow> Inl e
                            | Inr v \<Rightarrow> Inr (Finite (v / 1000)))
                         else Inl (RuntimeError ''CRC not valid'')))
           | _ \<Rightarrow> Inl ValueError))"
  by (simp add: read_ds18s20_temperature_body_def Let_def
      split: option.splits list.splits sum.splits prod.splits)

lemma reading_sysfs: "sysfs w' = sysfs w \<Longrightarrow> reading w' = reading w"
  by (rule ext) (simp add: reading_def read_ds18s20_temperature_def fst_trap_nan fst_read_body)

lemma now_frame [simp]:
  "fst (now tz w) = (wall_clock w (ticks w), tz)"
  "trace (snd (now tz w)) = trace w @ [(Now, environ w)]"
  "environ (snd (now tz w)) = environ w"
  "sysfs (snd (now tz w)) = sysfs w"
  "ticks (snd (now tz w)) = Suc (ticks w)"
  "wall_clock (snd (now tz w)) = wall_clock w"
  "archiver_accepts (snd (now tz w)) = archiver_accepts w"
  "localzone (snd (now tz w)) = localzone w"
  by (simp_all add: now_def)

lemma collect_step:
  "collect_time_series tz (s # rest) d w =
     collect_time_series tz rest
       (AList.update s [((wall_clock w (ticks w), tz), reading w s)] d)
       (snd (now tz (snd (read_ds18s20_temperature s w))))"
proof -
  obtain r w1 where r: "read_ds18s20_temperature s w = (r, w1)" by (cases "read_ds18s20_temperature s w")
  with read_returns [of s w] have r': "r = Inr (reading w s)" by simp
  obtain t w2 where n: "now tz w1 = (t, w2)" by (cases "now tz w1")
  from now_frame(1) [of tz w1] n have "t = (wall_clock w1 (ticks w1), tz)" by simp
  moreover from r have "w1 = snd (read_ds18s20_temperature s w)" by simp
  ultimately have "t = (wall_clock w (ticks w), tz)" by simp
  with r r' n show ?thesis by simp
qed

lemma collect_result:
  "fst (collect_time_series tz ss d w) =
     Inr (expected_series tz (wall_clock w) (reading w) (ticks w) ss d)"
proof (induction ss arbitrary: d w)
  case Nil
  show ?case by simp
next
  case (Cons s rest)
  let ?w2 = "snd (now tz (snd (read_ds18s20_temperature s w)))"
  have "reading ?w2 = reading w" by (rule reading_sysfs) simp
  then show ?case by (simp only: collect_step Cons.IH) simp
qed

lemma collect_frame [simp]:
  "trace (snd (collect_time_series tz ss d w)) =
     trace w @ concat (map (\<lambda>s. [(Opened (w1_slave s), environ w), (Now, environ w)]) ss)"
  "environ (snd (collect_time_series tz ss d w)) = environ w"
  "sysfs (snd (collect_time_series tz ss d w)) = sysfs w"
  "ticks (snd (collect_time_series tz ss d w)) = ticks w + length ss"
  "wall_clock (snd (collect_time_series tz ss d w)) = wall_clock w"
  "archiver_accepts (snd (collect_time_series tz ss d w)) = archiver_accepts w"
  "localzone (snd (collect_time_series tz ss d w)) = localzone w"
proof (induction ss arbitrary: d w)
  case Nil
  { case 1 show ?case by simp }
  { case 2 show ?case by simp }
  { case 3 show ?case by simp }
  { case 4 show ?case by simp }
  { case 5 show ?case by simp }
  { case 6 show ?case by simp }
  { case 7 show ?case by simp }
next
  case (Cons s rest)
  { case 1 show ?case by (simp only: collect_step Cons.IH) simp }
  { case 2 show ?case by (simp only: collect_step Cons.IH) simp }
  { case 3 show ?case by (simp only: collect_step Cons.IH) simp }
  { case 4 show ?case by (simp only: collect_step Cons.IH) simp }
  { case 5 show ?case by (simp only: collect_step Cons.IH) simp }
  { case 6 show ?case by (simp only: collect_step Cons.IH) simp }
  { case 7 show ?case by (simp only: collect_step Cons.IH) simp }
qed

lemma log_time_series_frame [simp]:
  "trace (log_time_series items w) = trace w"
  "environ (log_time_series items w) = environ w"
  "sysfs (log_time_series items w) = sysfs w"
  "ticks (log_time_series items w) = ticks w"
  "wall_clock (log_time_series items w) = wall_clock w"
  "archiver_accepts (log_time_series items w) = archiver_accepts w"
  "localzone (log_time_series items w) = localzone w"
  by (induction items w rule: log_time_series.induct) simp_all

lemma collect_pair:
  "all_time_series tz ss w =
     (Inr (expected_series tz (wall_clock w) (reading w) (ticks w) ss []),
      snd (collect_time_series tz ss [] w))"
  by (simp add: all_time_series_def prod_eq_iff collect_result)

section \<open>Properties of the dicts\<close>

lemma update_fresh: "k \<notin> fst ` set al \<Longrightarrow> AList.update k v al = al @ [(k, v)]"
  by (induction al) auto

lemma update_list_all:
  "P (k, v) \<Longrightarrow> list_all P al \<Longrightarrow> list_all P (AList.update k v al)"
  by (induction al) auto

lemma expected_keys:
  "fst ` set (expected_series tz c v n ss d) = fst ` set d \<union> set ss"
  by (induction ss arbitrary: n d) (auto simp: dom_update)

lemma expected_distinct:
  "distinct (map fst d) \<Longrightarrow> distinct (map fst (expected_series tz c v n ss d))"
  by (induction ss arbitrary: n d) (auto simp: distinct_update)

lemma expected_one_point:
  "list_all one_point d \<Longrightarrow> list_all one_point (expected_series tz c v n ss d)"
  by (induction ss arbitrary: n d) (auto simp: update_list_all one_point_def)

lemma expected_fresh:
  "distinct ss \<Longrightarrow> set ss \<inter> fst ` set d = {} \<Longrightarrow>
     map fst (expected_series tz c v n ss d) = map fst d @ ss"
proof (induction ss arbitrary: n d)
  case Nil
  show ?case by simp
next
  case (Cons s rest)
  from Cons.prems have f: "s \<notin> fst ` set d" by auto
  have "set rest \<inter> fst ` set (d @ [(s, [((c n, tz), v s)])]) = {}"
    using Cons.prems by auto
  with Cons.IH [of "d @ [(s, [((c n, tz), v s)])]" "Suc n"] Cons.prems f
  show ?case by (simp add: update_fresh)
qed

lemma expected_untouched:
  "k \<notin> set ss \<Longrightarrow> map_of (expected_series tz c v n ss d) k = map_of d k"
  by (induction ss arbitrary: n d) (auto simp: update_conv')

lemma expected_last:
  "i < length ss \<Longrightarrow> (\<forall>j. i < j \<and> j < length ss \<longrightarrow> ss ! j \<noteq> ss ! i) \<Longrightarrow>
     map_of (expected_series tz c v n ss d) (ss ! i) = Some [((c (n + i), tz), v (ss ! i))]"
proof (induction ss arbitrary: n d i)
  case Nil
  then show ?case by simp
next
  case (Cons s rest)
  show ?case
  proof (cases i)
    case 0
    have "s \<notin> set rest"
    proof
      assume "s \<in> set rest"
      then obtain j where "j < length rest" "rest ! j = s" by (auto simp: in_set_conv_nth)
      with Cons.prems(2) [rule_format, of "Suc j"] 0 show False by simp
    qed
    with 0 show ?thesis by (simp add: expected_untouched update_conv')
  next
    case (Suc i')
    with Cons.prems have a: "i' < length rest" by simp
    have b: "\<forall>j. i' < j \<and> j < length rest \<longrightarrow> rest ! j \<noteq> rest ! i'"
    proof (intro allI impI)
      fix j assume "i' < j \<and> j < length rest"
      with Cons.prems(2) [rule_format, of "Suc j"] Suc show "rest ! j \<noteq> rest ! i'" by simp
    qed
    from Cons.IH [OF a b, of "Suc n"] Suc show ?thesis by simp
  qed
qed





lemma series_name_inj: "series_name a = series_name b \<longleftrightarrow> a = b"
  by (simp add: series_name_def)

lemma foldl_readings:
  "distinct (map fst items) \<Longrightarrow> series_name ` fst ` set items \<inter> fst ` set acc = {} \<Longrightarrow>
     foldl (\<lambda>d (sensor_id, time_series). AList.update (series_name sensor_id) time_series d)
       acc items = acc @ map (\<lambda>(sensor_id, time_series). (series_name sensor_id, time_series)) items"
proof (induction items arbitrary: acc)
  case Nil
  show ?case by simp
next
  case (Cons item rest)
  obtain s ts where item: "item = (s, ts)" by (cases item)
  from Cons.prems item have f: "series_name s \<notin> fst ` set acc" by auto
  have "series_name ` fst ` set rest \<inter> fst ` set (acc @ [(series_name s, ts)]) = {}"
    using Cons.prems item by (auto simp: series_name_inj rev_image_eqI)
  with Cons.IH [of "acc @ [(series_name s, ts)]"] Cons.prems f item
  show ?case by (simp add: update_fresh)
qed

lemma make_readings_distinct:
  "distinct (map fst items) \<Longrightarrow>
     make_readings items =
       map (\<lambda>(sensor_id, time_series). (series_name sensor_id, time_series)) items"
  using foldl_readings [of items "[]"] by (simp add: make_readings_def)

section \<open>Properties of the run orchestrator\<close>



lemma async_main_run:
  assumes "parse_arguments w = Inr args" and "environ w STANLEY_PASSWORD = Some p"
  defines "stanley \<equiv> \<lparr>st_url = url args, st_ca_cert = ca_cert args,
                        st_username = username args, st_password = p\<rparr>"
    and "env' \<equiv> (environ w)(STANLEY_PASSWORD := None)"
    and "items \<equiv> expected_series (localzone w) (wall_clock w) (reading w) (ticks w) (sensor args) []"
  shows "fst (async_main w) =
           (if archiver_accepts w (make_readings items) then Inr () else Inl PostError)"
    and "trace (snd (async_main w)) =
           trace w @ [(GetEnv STANLEY_PASSWORD, environ w), (DelEnv STANLEY_PASSWORD, env'),
                      (NewClient stanley, env'), (GetLocalzone, env')]
             @ concat (map (\<lambda>s. [(Opened (w1_slave s), env'), (Now, env')]) (sensor args))
             @ [(Posted stanley (make_readings items), env')]"
    and "environ (snd (async_main w)) = env'"
proof -
  define w7 where "w7 = emit GetLocalzone (emit (NewClient stanley)
      (log DEBUG ''Using Stanley server %s'' [AStr (url args)]
        (emit (DelEnv STANLEY_PASSWORD)
          ((log DEBUG ''Removing password from environment'' []
             (emit (GetEnv STANLEY_PASSWORD) (setup_logging (verbose args) w)))
           \<lparr>environ := env'\<rparr>))))"
  define w8 where "w8 = snd (collect_time_series (localzone w) (sensor args) [] w7)"
  define w10 where "w10 = log INFO ''Sending values to Stanley server...'' []
      (log_time_series items w8)"
  have r7: "reading w7 = reading w"
    by (rule reading_sysfs) (simp add: w7_def)
  have f7: "localzone w7 = localzone w" "wall_clock w7 = wall_clock w" "ticks w7 = ticks w"
    "environ w7 = env'" "archiver_accepts w7 = archiver_accepts w"
    by (simp_all add: w7_def)
  have t7: "trace w7 = trace w @ [(GetEnv STANLEY_PASSWORD, environ w),
      (DelEnv STANLEY_PASSWORD, env'), (NewClient stanley, env'), (GetLocalzone, env')]"
    by (simp add: w7_def)
  have c: "all_time_series (localzone w) (sensor args) w7 = (Inr items, w8)"
    by (simp add: collect_pair r7 f7 items_def w8_def)
  have f8: "environ w8 = env'" "archiver_accepts w8 = archiver_accepts w"
    by (simp_all add: w8_def f7)
  have t8: "trace w8 = trace w7 @
      concat (map (\<lambda>s. [(Opened (w1_slave s), env'), (Now, env')]) (sensor args))"
    by (simp add: w8_def f7)
  have f10: "environ w10 = env'" "archiver_accepts w10 = archiver_accepts w" "trace w10 = trace w8"
    by (simp_all add: w10_def f8)
  have m: "async_main w =
      (case post_readings stanley (make_readings items) w10 of
         (Inl e, w11) \<Rightarrow> (Inl e, w11)
       | (Inr u, w11) \<Rightarrow> (Inr (), log INFO ''All done'' [] w11))"
    using assms(1,2) c
    by (simp add: async_main_def Let_def environ_get_def environ_del_def
        StanleyAiohttpInterface_def get_localzone_def w7_def [symmetric] w10_def [symmetric]
        stanley_def [symmetric] env'_def [symmetric])
  show "fst (async_main w) =
           (if archiver_accepts w (make_readings items) then Inr () else Inl PostError)"
    by (simp add: m post_readings_def Let_def f10)
  show "trace (snd (async_main w)) =
           trace w @ [(GetEnv STANLEY_PASSWORD, environ w), (DelEnv STANLEY_PASSWORD, env'),
                      (NewClient stanley, env'), (GetLocalzone, env')]
             @ concat (map (\<lambda>s. [(Opened (w1_slave s), env'), (Now, env')]) (sensor args))
             @ [(Posted stanley (make_readings items), env')]"
    by (simp add: m post_readings_def Let_def f10 t8 t7)
  show "environ (snd (async_main w)) = env'"
    by (simp add: m post_readings_def Let_def f10)
qed

lemma actions_append: "trace w' = trace w @ new \<Longrightarrow> actions w w' = new"
  by (simp add: actions_def)

lemma posted_readings_append:
  "posted_readings (xs @ ys) = posted_readings xs @ posted_readings ys"
  by (induction xs rule: posted_readings.induct) simp_all

lemma posted_readings_sensors:
  "posted_readings (concat (map (\<lambda>s. [(Opened (f s), env), (Now, env)]) ss)) = []"
  by (induction ss) simp_all


lemma list_all_sensors:
  "P (Now, env) \<Longrightarrow> (\<And>s. P (Opened (f s), env)) \<Longrightarrow>
     list_all P (concat (map (\<lambda>s. [(Opened (f s), env), (Now, env)]) ss))"
  by (induction ss) simp_all

lemma sample_arguments:
  "parse_arguments sample_world =
     Inr \<lparr>verbose = None, url = ''https://archive.example/'', username = ''pi'',
          ca_cert = None, sensor = [''28-000001'', ''28-000002'']\<rparr>"
  by (simp add: parse_arguments_def sample_world_def Let_def)

lemma sample_password: "environ sample_world STANLEY_PASSWORD = Some ''secret''"
  by (simp add: sample_world_def STANLEY_PASSWORD_def)

lemma sample_reading_valid: "reading sample_world ''28-000001'' = Finite 21.562"
  by (simp add: reading_def read_ds18s20_temperature_def fst_trap_nan fst_read_body
      sample_world_def w1_slave_def pattern_eval float_py_def nat_of_digits_def digit_val_def)




text \<open>
  When an identifier occurs more than once, \<^verbatim>\<open>all_time_series\<close> holds one series for it,
  the one of its last occurrence: the keys are distinct, they are the identifiers of the
  list, and the entry of an identifier is the reading taken at its last position.
\<close>

theorem duplicate_sensor_keeps_last:
  "\<exists>d w'. all_time_series tz sensors w = (Inr d, w')
     \<and> distinct (map fst d) \<and> set (map fst d) = set sensors \<and> list_all one_point d
     \<and> (\<forall>i<length sensors.
           (\<forall>j. i < j \<and> j < length sensors \<longrightarrow> sensors ! j \<noteq> sensors ! i) \<longrightarrow>
           map_of d (sensors ! i) =
             Some [((wall_clock w (ticks w + i), tz), reading w (sensors ! i))])"
proof -
  let ?d = "expected_series tz (wall_clock w) (reading w) (ticks w) sensors []"
  let ?w' = "snd (collect_time_series tz sensors [] w)"
  have 1: "all_time_series tz sensors w = (Inr ?d, ?w')" by (rule collect_pair)
  have 3: "distinct (map fst ?d)" by (simp add: expected_distinct)
  have 4: "set (map fst ?d) = set sensors" using expected_keys [of tz _ _ _ sensors "[]"] by simp
  have 5: "list_all one_point ?d" by (simp add: expected_one_point)
  have 6: "\<forall>i<length sensors.
           (\<forall>j. i < j \<and> j < length sensors \<longrightarrow> sensors ! j \<noteq> sensors ! i) \<longrightarrow>
           map_of ?d (sensors ! i) =
             Some [((wall_clock w (ticks w + i), tz), reading w (sensors ! i))]"
    by (simp add: expected_last)
  from 1 3 4 5 6 show ?thesis by blast
qed

theorem duplicate_sensor_keeps_last_witness:
  "\<exists>w'. all_time_series ''Europe/Copenhagen'' [''28-000001'', ''28-000001''] sample_world =
           (Inr [(''28-000001'', [((1572870002, ''Europe/Copenhagen''), Finite 21.562)])], w')"
proof -
  from duplicate_sensor_keeps_last
         [of "''Europe/Copenhagen''" "[''28-000001'', ''28-000001'']" sample_world]
  obtain d w' where a:
    "all_time_series ''Europe/Copenhagen'' [''28-000001'', ''28-000001''] sample_world = (Inr d, w')"
    by blast
  have c: "wall_clock sample_world (Suc (ticks sample_world)) = 1572870002"
    by (simp add: sample_world_def)
  have "fst (all_time_series ''Europe/Copenhagen'' [''28-000001'', ''28-000001''] sample_world) =
      Inr [(''28-000001'', [((1572870002, ''Europe/Copenhagen''), Finite 21.562)])]"
    by (simp add: collect_pair c sample_reading_valid)
  with a show ?thesis by auto
qed

text \<open>
  C5. For distinct sensor identifiers the run makes exactly one submission, and the keys
  of its payload are exactly the names \<^verbatim>\<open>/sensors/temperature/<id>\<close> of the configured
  identifiers, in their order and without repetition; every key has a series of exactly
  one data point.
\<close>

theorem payload_keys:
  assumes "parse_arguments w = Inr args" and "environ w STANLEY_PASSWORD = Some p"
    and "distinct (sensor args)"
  shows "\<exists>payload. posted_readings (actions w (snd (async_main w))) = [payload]
           \<and> map fst payload = map series_name (sensor args)
           \<and> set (map fst payload) = series_name ` set (sensor args)
           \<and> distinct (map fst payload)
           \<and> list_all one_point payload"
proof -
  let ?items = "expected_series (localzone w) (wall_clock w) (reading w) (ticks w) (sensor args) []"
  let ?payload = "make_readings ?items"
  have k: "map fst ?items = sensor args"
    using expected_fresh [OF assms(3), of "[]"] by simp
  have p: "?payload = map (\<lambda>(sensor_id, time_series). (series_name sensor_id, time_series)) ?items"
    by (rule make_readings_distinct) (simp add: expected_distinct)
  have "map fst ?payload = map series_name (map fst ?items)"
    by (simp add: p case_prod_unfold)
  with k have 2: "map fst ?payload = map series_name (sensor args)" by simp
  then have 3: "set (map fst ?payload) = series_name ` set (sensor args)" by simp
  have 4: "distinct (map fst ?payload)"
    using 2 assms(3) by (simp add: distinct_map inj_on_def series_name_inj)
  have "list_all one_point ?items" by (simp add: expected_one_point)
  then have 5: "list_all one_point ?payload"
    by (simp add: p list_all_iff one_point_def case_prod_unfold)
  have 1: "posted_readings (actions w (snd (async_main w))) = [?payload]"
    using actions_append [OF async_main_run(2) [OF assms(1,2)]]
    by (simp add: posted_readings_append posted_readings_sensors)
  from 1 2 3 4 5 show ?thesis by blast
qed

theorem payload_keys_witness:
  "distinct [''28-000001'', ''28-000002'']
   \<and> (\<exists>payload. posted_readings (actions sample_world (snd (async_main sample_world))) = [payload]
          \<and> map fst payload =
              [''/sensors/temperature/28-000001'', ''/sensors/temperature/28-000002'']
          \<and> list_all one_point payload)"
proof -
  have d: "distinct (sensor \<lparr>verbose = None, url = ''https://archive.example/'', username = ''pi'',
          ca_cert = None, sensor = [''28-000001'', ''28-000002'']\<rparr>)" by simp
  from payload_keys [OF sample_arguments sample_password d]
  have "\<exists>payload. posted_readings (actions sample_world (snd (async_main sample_world))) = [payload]
          \<and> map fst payload = map series_name [''28-000001'', ''28-000002'']
          \<and> list_all one_point payload"
    by auto
  then show ?thesis by (simp add: series_name_def)
qed



text \<open>
  C7. In a run that finds \<^verbatim>\<open>STANLEY_PASSWORD\<close> in the environment, reading it and removing
  it are the first two actions; every later action, among them the construction of the
  client and the submission, happens in an environment without the variable, and the
  environment is still without it when the run ends.
\<close>

theorem password_scrubbed:
  assumes "parse_arguments w = Inr args" and "environ w STANLEY_PASSWORD = Some p"
  shows "\<exists>rest. actions w (snd (async_main w)) =
             (GetEnv STANLEY_PASSWORD, environ w)
             # (DelEnv STANLEY_PASSWORD, (environ w)(STANLEY_PASSWORD := None)) # rest
           \<and> list_all (\<lambda>a. snd a STANLEY_PASSWORD = None) rest
           \<and> list_all (\<lambda>a. is_network (fst a) \<longrightarrow> snd a STANLEY_PASSWORD = None)
                (actions w (snd (async_main w)))
           \<and> list_ex (\<lambda>a. is_network (fst a)) rest
           \<and> environ (snd (async_main w)) STANLEY_PASSWORD = None"
proof -
  let ?env = "(environ w)(STANLEY_PASSWORD := None)"
  let ?stanley = "\<lparr>st_url = url args, st_ca_cert = ca_cert args,
                     st_username = username args, st_password = p\<rparr>"
  let ?items = "expected_series (localzone w) (wall_clock w) (reading w) (ticks w) (sensor args) []"
  let ?sensors = "concat (map (\<lambda>s. [(Opened (w1_slave s), ?env), (Now, ?env)]) (sensor args))"
  let ?rest = "[(NewClient ?stanley, ?env), (GetLocalzone, ?env)] @ ?sensors @
               [(Posted ?stanley (make_readings ?items), ?env)]"
  have s: "list_all (\<lambda>a. snd a STANLEY_PASSWORD = None) ?sensors"
    by (rule list_all_sensors) simp_all
  have 1: "actions w (snd (async_main w)) =
             (GetEnv STANLEY_PASSWORD, environ w) # (DelEnv STANLEY_PASSWORD, ?env) # ?rest"
    using actions_append [OF async_main_run(2) [OF assms]] by simp
  have 2: "list_all (\<lambda>a. snd a STANLEY_PASSWORD = None) ?rest"
    using s by simp
  then have "list_all (\<lambda>a. is_network (fst a) \<longrightarrow> snd a STANLEY_PASSWORD = None) ?rest"
    by (simp add: list_all_iff)
  then have 3: "list_all (\<lambda>a. is_network (fst a) \<longrightarrow> snd a STANLEY_PASSWORD = None)
                (actions w (snd (async_main w)))"
    by (simp only: 1) simp
  have 4: "list_ex (\<lambda>a. is_network (fst a)) ?rest" by simp
  have 5: "environ (snd (async_main w)) STANLEY_PASSWORD = None"
    by (simp add: async_main_run(3) [OF assms])
  from 1 2 3 4 5 show ?thesis by blast
qed

theorem password_scrubbed_witness:
  "environ sample_world STANLEY_PASSWORD = Some ''secret''
   \<and> environ (snd (async_main sample_world)) STANLEY_PASSWORD = None
   \<and> list_all (\<lambda>a. is_network (fst a) \<longrightarrow> snd a STANLEY_PASSWORD = None)
        (actions sample_world (snd (async_main sample_world)))"
  using password_scrubbed [OF sample_arguments sample_password] sample_password by blast

text \<open>
  C8. \<^verbatim>\<open>setup_logging\<close> selects the warning level when the verbosity is absent or 0, the
  info level when it is 1 and the debug level when it is 2 or more; with the verbosity
  that \<^verbatim>\<open>parse_arguments\<close> returns, the level follows the number of \<^verbatim>\<open>-v\<close> flags.
\<close>

theorem verbosity_levels:
  "log_level (setup_logging None w) = level_no WARN
   \<and> log_level (setup_logging (Some 0) w) = level_no WARN
   \<and> log_level (setup_logging (Some 1) w) = level_no INFO
   \<and> (\<forall>v\<ge>2. log_level (setup_logging (Some v) w) = level_no DEBUG)
   \<and> (\<forall>args. parse_arguments w = Inr args \<longrightarrow>
         log_level (setup_logging (verbose args) w) =
           level_no (if cl_verbose (cmdline w) = 0 then WARN
                     else if cl_verbose (cmdline w) = 1 then INFO else DEBUG))"
  by (auto simp: setup_logging_def parse_arguments_def Let_def
      split: option.splits list.splits)

theorem verbosity_levels_witness:
  "(2::int) \<le> 3 \<and> log_level (setup_logging (Some 3) sample_world) = level_no DEBUG
   \<and> log_level (setup_logging (Some 3) sample_world) = 10"
proof -
  have "(2::int) \<le> 3" by simp
  with verbosity_levels [of sample_world] show ?thesis by simp
qed

text \<open>
  C10. When \<^verbatim>\<open>--sensor\<close> is omitted the list of sensors is empty and the run still builds
  the client with the user name and the password and submits: its actions are the reading
  and the removal of the password, the construction of the client, the resolution of the
  time zone and one submission of the empty payload, and the run succeeds when the service
  takes the submission.
\<close>

theorem no_sensor_still_posts:
  assumes "\<not> cl_help (cmdline w)" and "cl_sensor (cmdline w) = None"
    and "cl_url (cmdline w) = Some u" and "cl_username (cmdline w) = Some n"
    and "environ w STANLEY_PASSWORD = Some p"
  shows "map fst (actions w (snd (async_main w))) =
           [GetEnv STANLEY_PASSWORD, DelEnv STANLEY_PASSWORD,
            NewClient \<lparr>st_url = u, st_ca_cert = cl_ca_cert (cmdline w),
                       st_username = n, st_password = p\<rparr>,
            GetLocalzone,
            Posted \<lparr>st_url = u, st_ca_cert = cl_ca_cert (cmdline w),
                    st_username = n, st_password = p\<rparr> []]
         \<and> posted_readings (actions w (snd (async_main w))) = [[]]
         \<and> fst (async_main w) = (if archiver_accepts w [] then Inr () else Inl PostError)"
proof -
  let ?args = "\<lparr>verbose = (if cl_verbose (cmdline w) = 0 then None
                             else Some (int (cl_verbose (cmdline w)))),
                 url = u, username = n, ca_cert = cl_ca_cert (cmdline w), sensor = []\<rparr>"
  have a: "parse_arguments w = Inr ?args"
    using assms(1,2,3,4) by (simp add: parse_arguments_def Let_def)
  have m: "make_readings [] = []" by (simp add: make_readings_def)
  note r = async_main_run [OF a assms(5)]
  from actions_append [OF r(2)] r(1) m show ?thesis by simp
qed

theorem no_sensor_still_posts_witness:
  "\<not> cl_help (cmdline no_sensor_world) \<and> cl_sensor (cmdline no_sensor_world) = None
   \<and> posted_readings (actions no_sensor_world (snd (async_main no_sensor_world))) = [[]]
   \<and> fst (async_main no_sensor_world) = Inr ()"
proof -
  have 0: "\<not> cl_help (cmdline no_sensor_world)"
    and 1: "cl_sensor (cmdline no_sensor_world) = None"
    and 2: "cl_url (cmdline no_sensor_world) = Some ''https://archive.example/''"
    and 3: "cl_username (cmdline no_sensor_world) = Some ''pi''"
    and 4: "environ no_sensor_world STANLEY_PASSWORD = Some ''secret''"
    and 5: "archiver_accepts no_sensor_world [] = True"
    by (simp_all add: no_sensor_world_def sample_world_def STANLEY_PASSWORD_def)
  from no_sensor_still_posts [OF 0 1 2 3 4] 0 1 5 show ?thesis by simp
qed

end
